theory Spec2Isabelle
  imports Complex_Main
begin

section \<open>Constants of pdf\_cutter.py\<close>

definition DPI_RENDER :: int where
  "DPI_RENDER = 150"

definition ZOOM_MIN :: real where
  "ZOOM_MIN = 2 / 10"

definition ZOOM_MAX :: real where
  "ZOOM_MAX = 5"

definition PAGE_GAP :: int where
  "PAGE_GAP = 10"

datatype error = IndexError | ZeroDivisionError

section \<open>Toolkit value types\<close>

text \<open>
  \<open>QPoint\<close>, \<open>QRect\<close> and \<open>QSize\<close> are value classes of the UI toolkit. The source only
  calls them; their arithmetic is written out here as the toolkit defines it. The
  integers are unbounded: where an argument leaves the range of a C \<open>int\<close> the binding
  raises before the toolkit is reached, and such calls are not part of this model. A \<open>QRect\<close> stores its two inclusive corners, so
  \<open>QRect(x, y, w, h)\<close> has the right edge \<open>x + w - 1\<close>, and the default \<open>QRect()\<close>
  is \<open>(0, 0, -1, -1)\<close>, of width and height 0.
\<close>

record QPoint =
  pt_x :: int
  pt_y :: int

definition QPoint_isNull :: "QPoint \<Rightarrow> bool" where
  "QPoint_isNull p \<longleftrightarrow> pt_x p = 0 \<and> pt_y p = 0"

text \<open>
  Python truth value of an \<open>Optional[QPoint]\<close>: \<open>None\<close> is false, and the binding's
  \<open>QPoint.__bool__\<close> is \<open>not isNull()\<close>, so the point \<open>(0, 0)\<close> is false as well.
\<close>

definition truthy :: "QPoint option \<Rightarrow> bool" where
  "truthy v = (case v of None \<Rightarrow> False | Some p \<Rightarrow> \<not> QPoint_isNull p)"

record QRect =
  rx1 :: int
  ry1 :: int
  rx2 :: int
  ry2 :: int

type_synonym QSize = "int \<times> int"

definition QRect_null :: QRect where
  "QRect_null = \<lparr>rx1 = 0, ry1 = 0, rx2 = - 1, ry2 = - 1\<rparr>"

definition QRect_xywh :: "int \<Rightarrow> int \<Rightarrow> int \<Rightarrow> int \<Rightarrow> QRect" where
  "QRect_xywh x y w h = \<lparr>rx1 = x, ry1 = y, rx2 = x + w - 1, ry2 = y + h - 1\<rparr>"

definition QRect_points :: "QPoint \<Rightarrow> QPoint \<Rightarrow> QRect" where
  "QRect_points p q = \<lparr>rx1 = pt_x p, ry1 = pt_y p, rx2 = pt_x q, ry2 = pt_y q\<rparr>"

definition rect_x :: "QRect \<Rightarrow> int" where
  "rect_x r = rx1 r"

definition rect_y :: "QRect \<Rightarrow> int" where
  "rect_y r = ry1 r"

definition rect_right :: "QRect \<Rightarrow> int" where
  "rect_right r = rx2 r"

definition rect_bottom :: "QRect \<Rightarrow> int" where
  "rect_bottom r = ry2 r"

definition rect_width :: "QRect \<Rightarrow> int" where
  "rect_width r = rx2 r - rx1 r + 1"

definition rect_height :: "QRect \<Rightarrow> int" where
  "rect_height r = ry2 r - ry1 r + 1"

definition isNull :: "QRect \<Rightarrow> bool" where
  "isNull r \<longleftrightarrow> rx2 r = rx1 r - 1 \<and> ry2 r = ry1 r - 1"

definition isEmpty :: "QRect \<Rightarrow> bool" where
  "isEmpty r \<longleftrightarrow> rx1 r > rx2 r \<or> ry1 r > ry2 r"

definition normalized :: "QRect \<Rightarrow> QRect" where
  "normalized r =
     (let r' = (if rx2 r < rx1 r then r\<lparr>rx1 := rx2 r + 1, rx2 := rx1 r - 1\<rparr> else r)
      in if ry2 r < ry1 r then r'\<lparr>ry1 := ry2 r + 1, ry2 := ry1 r - 1\<rparr> else r')"

definition intersected :: "QRect \<Rightarrow> QRect \<Rightarrow> QRect" where
  "intersected a b =
     (if isNull a \<or> isNull b then QRect_null
      else
        let l1 = (if rx2 a - rx1 a + 1 < 0 then rx2 a else rx1 a);
            r1 = (if rx2 a - rx1 a + 1 < 0 then rx1 a else rx2 a);
            l2 = (if rx2 b - rx1 b + 1 < 0 then rx2 b else rx1 b);
            r2 = (if rx2 b - rx1 b + 1 < 0 then rx1 b else rx2 b)
        in if l1 > r2 \<or> l2 > r1 then QRect_null
           else
             let t1 = (if ry2 a - ry1 a + 1 < 0 then ry2 a else ry1 a);
                 b1 = (if ry2 a - ry1 a + 1 < 0 then ry1 a else ry2 a);
                 t2 = (if ry2 b - ry1 b + 1 < 0 then ry2 b else ry1 b);
                 b2 = (if ry2 b - ry1 b + 1 < 0 then ry1 b else ry2 b)
             in if t1 > b2 \<or> t2 > b1 then QRect_null
                else \<lparr>rx1 = max l1 l2, ry1 = max t1 t2, rx2 = min r1 r2, ry2 = min b1 b2\<rparr>)"

text \<open>
  A page image: the source reads only \<open>width()\<close> and \<open>height()\<close> of a \<open>QPixmap\<close>, which
  are never negative; they are carried as naturals and enter the source's integer
  arithmetic through \<open>int\<close>.
\<close>

record QPixmap =
  pm_width :: nat
  pm_height :: nat

section \<open>PageCanvas\<close>

text \<open>
  The fields of the class, plus the widget's own size (\<open>widget_w\<close>, \<open>widget_h\<close>): what
  \<open>self.width()\<close> and \<open>self.height()\<close> return. It is set by \<open>setFixedSize\<close> and need not
  equal \<open>_max_w\<close> and \<open>_total_h\<close>, since the toolkit bounds the size of a widget.
\<close>

record PageCanvas =
  pixmaps :: "QPixmap list"
  page_y :: "int list"
  total_h :: int
  max_w :: int
  widget_w :: int
  widget_h :: int
  sel_origin :: "QPoint option"
  sel_current :: "QPoint option"

text \<open>The constructor; a new parentless widget has the toolkit's default size 640 x 480.\<close>

definition PageCanvas_init :: PageCanvas where
  "PageCanvas_init =
     \<lparr>pixmaps = [], page_y = [], total_h = 0, max_w = 0, widget_w = 640, widget_h = 480,
      sel_origin = None, sel_current = None\<rparr>"

text \<open>
  The loop of \<open>_recompute\<close>: the state is \<open>(_page_y, y, max_w)\<close>, one step per pixmap.
\<close>

fun recompute_loop :: "QPixmap list \<Rightarrow> int list \<times> int \<times> int \<Rightarrow> int list \<times> int \<times> int" where
  "recompute_loop [] s = s"
| "recompute_loop (pm # pms) (ys, y, mw) =
     recompute_loop pms (ys @ [y], y + (int (pm_height pm) + PAGE_GAP), max mw (int (pm_width pm)))"

text \<open>
  \<open>setFixedSize\<close> of the toolkit: each side is bounded to \<open>[0, QWIDGETSIZE_MAX]\<close>, the
  bounded pair becomes the minimum and the maximum size, and the widget is resized to it.
  The pair \<open>(QWIDGETSIZE_MAX, QWIDGETSIZE_MAX)\<close> stands for no constraint, and the toolkit
  then leaves the widget at the size it has.
\<close>

definition QWIDGETSIZE_MAX :: int where
  "QWIDGETSIZE_MAX = 16777215"

definition setFixedSize :: "PageCanvas \<Rightarrow> int \<Rightarrow> int \<Rightarrow> PageCanvas" where
  "setFixedSize c w h =
     (let w' = max 0 (min w QWIDGETSIZE_MAX);
          h' = max 0 (min h QWIDGETSIZE_MAX)
      in if w' = QWIDGETSIZE_MAX \<and> h' = QWIDGETSIZE_MAX then c
         else c\<lparr>widget_w := w', widget_h := h'\<rparr>)"

definition recompute :: "PageCanvas \<Rightarrow> PageCanvas" where
  "recompute c =
     (case recompute_loop (pixmaps c) ([], PAGE_GAP, 0) of
        (ys, y, mw) \<Rightarrow>
          let c1 = c\<lparr>page_y := ys, total_h := max y 1, max_w := max (mw + PAGE_GAP * 2) 1\<rparr>
          in setFixedSize c1 (max_w c1) (total_h c1))"

definition sizeHint :: "PageCanvas \<Rightarrow> QSize" where
  "sizeHint c = (if pixmaps c \<noteq> [] then (max_w c, total_h c) else (100, 100))"

definition set_pixmaps :: "PageCanvas \<Rightarrow> QPixmap list \<Rightarrow> PageCanvas" where
  "set_pixmaps c pms = recompute (c\<lparr>pixmaps := pms\<rparr>)"

text \<open>
  \<open>page_rect\<close>: the index test of the source guards \<open>self.pixmaps\<close> only; the read of
  \<open>self._page_y[idx]\<close> raises when that list is shorter.
\<close>

definition page_rect :: "PageCanvas \<Rightarrow> int \<Rightarrow> error + QRect" where
  "page_rect c idx =
     (if 0 \<le> idx \<and> idx < int (length (pixmaps c)) then
        let pm = pixmaps c ! nat idx;
            x = max 0 ((widget_w c - int (pm_width pm)) div 2)
        in if nat idx < length (page_y c)
           then Inr (QRect_xywh x (page_y c ! nat idx) (int (pm_width pm)) (int (pm_height pm)))
           else Inl IndexError
      else Inr QRect_null)"

text \<open>
  \<open>page_at_y\<close>: the loop over \<open>range(len(_page_y) - 1, -1, -1)\<close>; the counter \<open>k\<close> is the
  number of indices still to visit, the next one being \<open>k - 1\<close>.
\<close>

fun page_at_y_loop :: "int list \<Rightarrow> int \<Rightarrow> nat \<Rightarrow> int" where
  "page_at_y_loop ys y 0 = 0"
| "page_at_y_loop ys y (Suc i) = (if y \<ge> ys ! i then int i else page_at_y_loop ys y i)"

definition page_at_y :: "PageCanvas \<Rightarrow> int \<Rightarrow> int" where
  "page_at_y c y = page_at_y_loop (page_y c) y (length (page_y c))"

subsection \<open>Mouse handling and the rubber band\<close>

datatype MouseButton = LeftButton | RightButton | MiddleButton

definition mousePressEvent :: "PageCanvas \<Rightarrow> MouseButton \<Rightarrow> QPoint \<Rightarrow> PageCanvas" where
  "mousePressEvent c button pos =
     (if button = LeftButton then c\<lparr>sel_origin := Some pos, sel_current := Some pos\<rparr> else c)"

definition mouseMoveEvent :: "PageCanvas \<Rightarrow> QPoint \<Rightarrow> PageCanvas" where
  "mouseMoveEvent c pos =
     (if sel_origin c \<noteq> None then c\<lparr>sel_current := Some pos\<rparr> else c)"

definition mouseReleaseEvent :: "PageCanvas \<Rightarrow> MouseButton \<Rightarrow> QPoint \<Rightarrow> PageCanvas" where
  "mouseReleaseEvent c button pos =
     (if button = LeftButton \<and> truthy (sel_origin c) then c\<lparr>sel_current := Some pos\<rparr> else c)"

definition clear_selection :: "PageCanvas \<Rightarrow> PageCanvas" where
  "clear_selection c = c\<lparr>sel_origin := None, sel_current := None\<rparr>"

definition selection_rect :: "PageCanvas \<Rightarrow> QRect option" where
  "selection_rect c =
     (if truthy (sel_origin c) \<and> truthy (sel_current c)
      then Some (normalized (QRect_points (the (sel_origin c)) (the (sel_current c))))
      else None)"

section \<open>PdfViewerWidget\<close>

text \<open>
  The document is the PDF library's object. The viewer uses its page count (\<open>len(doc)\<close>)
  and the text of a page inside a clip rectangle. A Python string is the list of its
  Unicode code points. Python floats are taken as real numbers: the zoom factor, the
  render scale and the clip coordinates are reals, and rounding is not modelled.
\<close>

type_synonym pystr = "nat list"

record Rect =
  clip_x0 :: real
  clip_y0 :: real
  clip_x1 :: real
  clip_y1 :: real

record Document =
  page_count :: nat
  get_text :: "nat \<Rightarrow> Rect \<Rightarrow> pystr"

text \<open>
  Besides the fields of the class, the record holds what the methods read from and write
  to their surroundings: the vertical scroll bar (\<open>sb_value\<close>, \<open>sb_maximum\<close>), the
  viewport's height, the list of \<open>page_changed\<close> emissions so far, the clipboard text,
  and the list of text extractions requested from the document so far.
\<close>

record PdfViewerWidget =
  doc :: "Document option"
  zoom :: real
  current_page :: int
  canvas :: PageCanvas
  sb_value :: int
  sb_maximum :: int
  viewport_height :: int
  emitted :: "int list"
  clipboard :: pystr
  extracted :: "(nat \<times> Rect) list"

text \<open>
  \<open>not self.doc\<close>: the document class has \<open>__len__\<close> and no \<open>__bool__\<close>, so a document
  without pages is false like \<open>None\<close>.
\<close>

definition doc_falsy :: "Document option \<Rightarrow> bool" where
  "doc_falsy d = (case d of None \<Rightarrow> True | Some dd \<Rightarrow> page_count dd = 0)"

definition on_scroll :: "PdfViewerWidget \<Rightarrow> PdfViewerWidget" where
  "on_scroll v =
     (if pixmaps (canvas v) = [] then v
      else
        let mid_y = sb_value v + viewport_height v div 2;
            pg = page_at_y (canvas v) mid_y
        in if pg \<noteq> current_page v
           then v\<lparr>current_page := pg, emitted := emitted v @ [pg]\<rparr>
           else v)"

text \<open>
  A scroll event: the scroll bar has moved to \<open>val\<close> while the viewport is \<open>vh\<close> pixels
  high, and its \<open>valueChanged\<close> signal runs the connected slot \<open>_on_scroll\<close>.
\<close>

definition scroll_event :: "PdfViewerWidget \<Rightarrow> int \<times> int \<Rightarrow> PdfViewerWidget" where
  "scroll_event v ev = on_scroll (v\<lparr>sb_value := fst ev, viewport_height := snd ev\<rparr>)"

definition scroll_events :: "PdfViewerWidget \<Rightarrow> (int \<times> int) list \<Rightarrow> PdfViewerWidget" where
  "scroll_events v evs = foldl scroll_event v evs"

text \<open>
  \<open>setValue\<close> of the scroll bar bounds the value to \<open>[0, maximum]\<close> and signals
  \<open>valueChanged\<close>, which runs \<open>_on_scroll\<close>, only when the value changes.
\<close>

definition setValue :: "PdfViewerWidget \<Rightarrow> int \<Rightarrow> PdfViewerWidget" where
  "setValue v x =
     (let x' = max 0 (min (sb_maximum v) x)
      in if x' = sb_value v then v else on_scroll (v\<lparr>sb_value := x'\<rparr>))"

definition scroll_to_page :: "PdfViewerWidget \<Rightarrow> int \<Rightarrow> error + PdfViewerWidget" where
  "scroll_to_page v page_index =
     (if \<not> (0 \<le> page_index \<and> page_index < int (length (pixmaps (canvas v)))) then Inr v
      else if \<not> nat page_index < length (page_y (canvas v)) then Inl IndexError
      else
        let y = page_y (canvas v) ! nat page_index;
            v1 = setValue v (max 0 (y - 10))
        in Inr (v1\<lparr>current_page := page_index, emitted := emitted v1 @ [page_index]\<rparr>))"

subsection \<open>Copying the selected text\<close>

text \<open>
  \<open>str.strip()\<close> removes the leading and trailing characters that Python counts as
  whitespace: the code points 9 to 13, 28 to 32, U+0085, U+00A0, U+1680, U+2000 to
  U+200A, U+2028, U+2029, U+202F, U+205F and U+3000.
\<close>

definition is_space :: "nat \<Rightarrow> bool" where
  "is_space cp \<longleftrightarrow>
     (0x09 \<le> cp \<and> cp \<le> 0x0D) \<or> (0x1C \<le> cp \<and> cp \<le> 0x20) \<or> cp = 0x85 \<or> cp = 0xA0
     \<or> cp = 0x1680 \<or> (0x2000 \<le> cp \<and> cp \<le> 0x200A) \<or> cp = 0x2028 \<or> cp = 0x2029
     \<or> cp = 0x202F \<or> cp = 0x205F \<or> cp = 0x3000"

definition strip :: "pystr \<Rightarrow> pystr" where
  "strip s = rev (dropWhile is_space (rev (dropWhile is_space s)))"

text \<open>
  The zoom factor is 1.0 at first and is only assigned in \<open>set_zoom\<close>, after its first
  line has brought the requested value into \<open>[ZOOM_MIN, ZOOM_MAX]\<close>.
\<close>

definition clamp_zoom :: "real \<Rightarrow> real" where
  "clamp_zoom z = max ZOOM_MIN (min ZOOM_MAX z)"

text \<open>The render scale, \<open>DPI_RENDER / 72.0 * self.zoom\<close>.\<close>

definition render_scale :: "PdfViewerWidget \<Rightarrow> real" where
  "render_scale v = real_of_int DPI_RENDER / 72 * zoom v"

text \<open>
  The loop of \<open>_try_copy_selection\<close> over the page indices still to visit. \<open>return\<close>
  inside the loop ends it; a division by a scale of zero raises, and so does
  \<open>self.doc[i]\<close> for an index the document does not have.
\<close>

fun copy_loop :: "real \<Rightarrow> Document \<Rightarrow> QRect \<Rightarrow> nat list \<Rightarrow> PdfViewerWidget
                   \<Rightarrow> error + PdfViewerWidget" where
  "copy_loop scale d sel [] v = Inr v"
| "copy_loop scale d sel (i # rest) v =
     (case page_rect (canvas v) (int i) of
        Inl e \<Rightarrow> Inl e
      | Inr pr \<Rightarrow>
          let inter = intersected sel pr
          in if isEmpty inter then copy_loop scale d sel rest v
             else
               let local = QRect_xywh (rect_x inter - rect_x pr) (rect_y inter - rect_y pr)
                                      (rect_width inter) (rect_height inter)
               in if scale = 0 then Inl ZeroDivisionError
                  else
                    let clip = \<lparr>clip_x0 = real_of_int (rect_x local) / scale,
                                clip_y0 = real_of_int (rect_y local) / scale,
                                clip_x1 = real_of_int (rect_right local) / scale,
                                clip_y1 = real_of_int (rect_bottom local) / scale\<rparr>
                    in if \<not> i < page_count d then Inl IndexError
                       else
                         let text = strip (get_text d i clip);
                             v1 = v\<lparr>extracted := extracted v @ [(i, clip)]\<rparr>
                         in if text \<noteq> [] then Inr (v1\<lparr>clipboard := text\<rparr>)
                            else copy_loop scale d sel rest v1)"

definition try_copy_selection :: "PdfViewerWidget \<Rightarrow> error + PdfViewerWidget" where
  "try_copy_selection v =
     (if doc_falsy (doc v) then Inr v
      else
        case selection_rect (canvas v) of
          None \<Rightarrow> Inr v
        | Some sel \<Rightarrow>
            if rect_width sel < 4 \<or> rect_height sel < 4 then Inr v
            else copy_loop (render_scale v) (the (doc v)) sel
                           [0..<length (pixmaps (canvas v))] v)"

section \<open>Notions used to state the properties\<close>

text \<open>
  The page that \<open>_on_scroll\<close> computes for a scroll event \<open>(value, viewport height)\<close>:
  \<open>page_at_y\<close> at the vertical centre of the viewport.
\<close>

definition active_page :: "PageCanvas \<Rightarrow> int \<times> int \<Rightarrow> int" where
  "active_page c ev = page_at_y c (fst ev + snd ev div 2)"






section \<open>Example states\<close>

text \<open>
  Two pages of 400 x 600 and 500 x 600 pixels; a document whose first page holds the
  text \<open>abc\<close> between a no-break space and a blank and whose second page holds \<open>def\<close>;
  and a viewer showing them at zoom 1.0, where the render scale is \<open>150 / 72\<close>.
\<close>

definition two_pages :: "QPixmap list" where
  "two_pages = [\<lparr>pm_width = 400, pm_height = 600\<rparr>, \<lparr>pm_width = 500, pm_height = 600\<rparr>]"

definition example_doc :: Document where
  "example_doc =
     \<lparr>page_count = 2,
      get_text = (\<lambda>i clip. if i = 0 then [0xA0, 97, 98, 99, 32] else [100, 101, 102])\<rparr>"

definition example_viewer :: PdfViewerWidget where
  "example_viewer =
     \<lparr>doc = Some example_doc, zoom = 1, current_page = 0,
      canvas = set_pixmaps PageCanvas_init two_pages,
      sb_value = 0, sb_maximum = 630, viewport_height = 600,
      emitted = [], clipboard = [], extracted = []\<rparr>"

text \<open>
  The same viewer during a drag from \<open>(100, 500)\<close> to \<open>(300, 700)\<close>, which crosses the gap
  between the two pages, and during a drag only three pixels wide.
\<close>

definition example_drag :: PdfViewerWidget where
  "example_drag =
     example_viewer\<lparr>canvas :=
       mouseMoveEvent (mousePressEvent (canvas example_viewer) LeftButton \<lparr>pt_x = 100, pt_y = 500\<rparr>)
                      \<lparr>pt_x = 300, pt_y = 700\<rparr>\<rparr>"

definition example_small_drag :: PdfViewerWidget where
  "example_small_drag =
     example_viewer\<lparr>canvas :=
       mouseMoveEvent (mousePressEvent (canvas example_viewer) LeftButton \<lparr>pt_x = 100, pt_y = 100\<rparr>)
                      \<lparr>pt_x = 102, pt_y = 150\<rparr>\<rparr>"

text \<open>
  Four pages of 400 x 100 pixels in a viewport 300 pixels high: the page at the centre
  of the viewport is not the page at its top.
\<close>

definition short_pages_viewer :: PdfViewerWidget where
  "short_pages_viewer =
     \<lparr>doc = None, zoom = 1, current_page = 0,
      canvas = set_pixmaps PageCanvas_init
                 [\<lparr>pm_width = 400, pm_height = 100\<rparr>, \<lparr>pm_width = 400, pm_height = 100\<rparr>,
                  \<lparr>pm_width = 400, pm_height = 100\<rparr>, \<lparr>pm_width = 400, pm_height = 100\<rparr>],
      sb_value = 0, sb_maximum = 150, viewport_height = 300,
      emitted = [], clipboard = [], extracted = []\<rparr>"

section \<open>The layout computed by \<open>_recompute\<close>\<close>

lemma recompute_loop_length:
  "length (fst (recompute_loop pms (ys, y, mw))) = length ys + length pms"
  by (induction pms arbitrary: ys y mw) auto

lemma recompute_loop_prefix:
  "i < length ys \<Longrightarrow> fst (recompute_loop pms (ys, y, mw)) ! i = ys ! i"
  by (induction pms arbitrary: ys y mw) (auto simp: nth_append)

lemma recompute_loop_nth:
  "i < length pms \<Longrightarrow>
   fst (recompute_loop pms (ys, y, mw)) ! (length ys + i)
     = y + (\<Sum>pm\<leftarrow>take i pms. int (pm_height pm) + PAGE_GAP)"
proof (induction pms arbitrary: ys y mw i)
  case Nil
  then show ?case by simp
next
  case (Cons pm pms)
  show ?case
  proof (cases i)
    case 0
    then show ?thesis
      using recompute_loop_prefix [of "length ys" "ys @ [y]" pms] by simp
  next
    case (Suc j)
    with Cons.prems have j: "j < length pms" by simp
    have "fst (recompute_loop pms (ys @ [y], y + (int (pm_height pm) + PAGE_GAP), max mw (int (pm_width pm))))
            ! (length (ys @ [y]) + j)
          = y + (int (pm_height pm) + PAGE_GAP) + (\<Sum>pm\<leftarrow>take j pms. int (pm_height pm) + PAGE_GAP)"
      by (rule Cons.IH [OF j])
    then show ?thesis using Suc by simp
  qed
qed

lemma recompute_loop_y:
  "fst (snd (recompute_loop pms (ys, y, mw))) = y + (\<Sum>pm\<leftarrow>pms. int (pm_height pm) + PAGE_GAP)"
  by (induction pms arbitrary: ys y mw) auto

lemma Max_insert_max:
  "finite S \<Longrightarrow> Max (insert (max a b) S) = max (a::int) (Max (insert b S))"
  by (cases "S = {}") (simp_all add: max.assoc)

lemma recompute_loop_max_w:
  "snd (snd (recompute_loop pms (ys, y, mw))) = Max (insert mw ((\<lambda>pm. int (pm_width pm)) ` set pms))"
proof (induction pms arbitrary: ys y mw)
  case Nil
  then show ?case by simp
next
  case (Cons pm pms)
  have "Max (insert (max mw (int (pm_width pm))) ((\<lambda>pm. int (pm_width pm)) ` set pms))
        = Max (insert mw ((\<lambda>pm. int (pm_width pm)) ` set (pm # pms)))"
    by (simp add: Max_insert_max)
  then show ?case using Cons.IH by simp
qed

lemma set_pixmaps_fields:
  "pixmaps (set_pixmaps c pms) = pms"
  "page_y (set_pixmaps c pms) = fst (recompute_loop pms ([], PAGE_GAP, 0))"
  "total_h (set_pixmaps c pms) = max (fst (snd (recompute_loop pms ([], PAGE_GAP, 0)))) 1"
  "max_w (set_pixmaps c pms) = max (snd (snd (recompute_loop pms ([], PAGE_GAP, 0))) + PAGE_GAP * 2) 1"
  "sel_origin (set_pixmaps c pms) = sel_origin c"
  "sel_current (set_pixmaps c pms) = sel_current c"
  by (simp_all add: set_pixmaps_def recompute_def setFixedSize_def Let_def split: prod.split)

lemma set_pixmaps_widget:
  "widget_w (set_pixmaps c pms) =
     (if QWIDGETSIZE_MAX \<le> max_w (set_pixmaps c pms) \<and> QWIDGETSIZE_MAX \<le> total_h (set_pixmaps c pms)
      then widget_w c else min (max_w (set_pixmaps c pms)) QWIDGETSIZE_MAX)"
  "widget_h (set_pixmaps c pms) =
     (if QWIDGETSIZE_MAX \<le> max_w (set_pixmaps c pms) \<and> QWIDGETSIZE_MAX \<le> total_h (set_pixmaps c pms)
      then widget_h c else min (total_h (set_pixmaps c pms)) QWIDGETSIZE_MAX)"
  by (auto simp add: set_pixmaps_def recompute_def setFixedSize_def Let_def QWIDGETSIZE_MAX_def
           split: prod.split)

lemma page_y_length: "length (page_y (set_pixmaps c pms)) = length pms"
  using recompute_loop_length [of pms "[]" PAGE_GAP 0] by (simp add: set_pixmaps_fields)

lemma page_y_nth:
  "i < length pms \<Longrightarrow>
   page_y (set_pixmaps c pms) ! i = PAGE_GAP + (\<Sum>pm\<leftarrow>take i pms. int (pm_height pm) + PAGE_GAP)"
  using recompute_loop_nth [of i pms "[]" PAGE_GAP 0] by (simp add: set_pixmaps_fields)

lemma page_y_Suc:
  assumes "Suc i < length pms"
  shows "page_y (set_pixmaps c pms) ! Suc i
           = page_y (set_pixmaps c pms) ! i + int (pm_height (pms ! i)) + PAGE_GAP"
proof -
  from assms have i: "i < length pms" by simp
  have "take (Suc i) pms = take i pms @ [pms ! i]"
    using i by (rule take_Suc_conv_app_nth)
  then show ?thesis
    using page_y_nth [OF assms, of c] page_y_nth [OF i, of c] by simp
qed

lemma page_y_mono:
  assumes "i < j" "j < length pms"
  shows "page_y (set_pixmaps c pms) ! i + int (pm_height (pms ! i)) + PAGE_GAP
           \<le> page_y (set_pixmaps c pms) ! j"
  using assms
proof (induction j)
  case 0
  then show ?case by simp
next
  case (Suc j)
  have step: "page_y (set_pixmaps c pms) ! Suc j
           = page_y (set_pixmaps c pms) ! j + int (pm_height (pms ! j)) + PAGE_GAP"
    using Suc.prems by (intro page_y_Suc)
  show ?case
  proof (cases "i = j")
    case True
    then show ?thesis using step by simp
  next
    case False
    with Suc.prems have "i < j" "j < length pms" by simp_all
    from Suc.IH [OF this] show ?thesis using step by (simp add: PAGE_GAP_def)
  qed
qed

lemma page_y_strict:
  assumes "i < j" "j < length pms"
  shows "page_y (set_pixmaps c pms) ! i < page_y (set_pixmaps c pms) ! j"
  using page_y_mono [OF assms, of c] by (simp add: PAGE_GAP_def)

lemma total_h_eq:
  assumes "pms \<noteq> []"
  shows "total_h (set_pixmaps c pms)
           = page_y (set_pixmaps c pms) ! (length pms - 1) + int (pm_height (last pms)) + PAGE_GAP"
proof -
  let ?n = "length pms - 1"
  from assms have n: "?n < length pms" by simp
  have "pms = take ?n pms @ [pms ! ?n]"
    using assms take_Suc_conv_app_nth [OF n] by simp
  then have "(\<Sum>pm\<leftarrow>pms. int (pm_height pm) + PAGE_GAP)
      = (\<Sum>pm\<leftarrow>take ?n pms. int (pm_height pm) + PAGE_GAP) + (int (pm_height (pms ! ?n)) + PAGE_GAP)"
    by (metis (no_types, lifting) sum_list_append map_append list.simps(8,9) sum_list.Cons sum_list.Nil add.right_neutral)
  moreover have "pms ! ?n = last pms"
    using assms by (simp add: last_conv_nth)
  moreover have "0 \<le> (\<Sum>pm\<leftarrow>pms. int (pm_height pm) + PAGE_GAP)"
    by (rule sum_list_nonneg) (auto simp: PAGE_GAP_def)
  ultimately show ?thesis
    using page_y_nth [OF n, of c] recompute_loop_y [of pms "[]" PAGE_GAP 0]
    by (simp add: set_pixmaps_fields PAGE_GAP_def)
qed

lemma max_w_eq:
  assumes "pms \<noteq> []"
  shows "max_w (set_pixmaps c pms) = Max ((\<lambda>pm. int (pm_width pm)) ` set pms) + PAGE_GAP * 2"
proof -
  let ?S = "(\<lambda>pm. int (pm_width pm)) ` set pms"
  have fin: "finite ?S" and ne: "?S \<noteq> {}" using assms by simp_all
  have "int (pm_width (hd pms)) \<in> ?S"
    using assms by simp
  then have "int (pm_width (hd pms)) \<le> Max ?S"
    using fin by (rule_tac Max_ge)
  then have "0 \<le> Max ?S"
    by simp
  then have "Max (insert 0 ?S) = Max ?S"
    using fin ne by (simp add: Max_insert)
  then show ?thesis
    using recompute_loop_max_w [of pms "[]" PAGE_GAP 0] \<open>0 \<le> Max ?S\<close>
    by (simp add: set_pixmaps_fields PAGE_GAP_def)
qed

lemma page_rect_in_range:
  assumes "i < length pms"
  shows "page_rect (set_pixmaps c pms) (int i)
           = Inr (QRect_xywh (max 0 ((widget_w (set_pixmaps c pms) - int (pm_width (pms ! i))) div 2))
                             (page_y (set_pixmaps c pms) ! i)
                             (int (pm_width (pms ! i))) (int (pm_height (pms ! i))))"
  using assms by (simp add: page_rect_def page_y_length set_pixmaps_fields(1) Let_def)

lemma page_rect_out_of_range:
  assumes "\<not> (0 \<le> idx \<and> idx < int (length pms))"
  shows "page_rect (set_pixmaps c pms) idx = Inr QRect_null"
  using assms by (auto simp add: page_rect_def set_pixmaps_fields(1))

lemma QRect_xywh_simps:
  "rect_x (QRect_xywh x y w h) = x"
  "rect_y (QRect_xywh x y w h) = y"
  "rect_width (QRect_xywh x y w h) = w"
  "rect_height (QRect_xywh x y w h) = h"
  "rect_right (QRect_xywh x y w h) = x + w - 1"
  "rect_bottom (QRect_xywh x y w h) = y + h - 1"
  by (simp_all add: QRect_xywh_def rect_x_def rect_y_def rect_width_def rect_height_def
                    rect_right_def rect_bottom_def)

lemma page_at_y_loop_found:
  assumes "\<exists>i<k. ys ! i \<le> y"
  shows "0 \<le> page_at_y_loop ys y k \<and> nat (page_at_y_loop ys y k) < k
         \<and> ys ! nat (page_at_y_loop ys y k) \<le> y
         \<and> (\<forall>j<k. ys ! j \<le> y \<longrightarrow> int j \<le> page_at_y_loop ys y k)"
  using assms
proof (induction k)
  case 0
  then show ?case by simp
next
  case (Suc k)
  show ?case
  proof (cases "ys ! k \<le> y")
    case True
    then show ?thesis by auto
  next
    case False
    with Suc.prems have "\<exists>i<k. ys ! i \<le> y"
      by (metis less_Suc_eq)
    from Suc.IH [OF this] False show ?thesis
      by (auto simp: less_Suc_eq)
  qed
qed

lemma page_at_y_loop_none:
  assumes "\<forall>i<k. y < ys ! i"
  shows "page_at_y_loop ys y k = 0"
  using assms by (induction k) auto

text \<open>
  C1. For every sequence of page images given to \<open>set_pixmaps\<close>, the layout has one entry
  per page; the first page's top is one \<open>PAGE_GAP\<close>, and each further page's top is the
  previous page's top plus that page's height plus one \<open>PAGE_GAP\<close>. The rectangles that
  \<open>page_rect\<close> returns carry these tops and the pages' heights, so in index order their
  vertical ranges increase strictly, do not overlap (the last row of an earlier page lies
  above the top of a later one), and consecutive pages are exactly one gap apart.
\<close>

theorem set_pixmaps_layout:
  "length (page_y (set_pixmaps c pms)) = length pms
   \<and> (pms \<noteq> [] \<longrightarrow> page_y (set_pixmaps c pms) ! 0 = PAGE_GAP)
   \<and> (\<forall>i. Suc i < length pms \<longrightarrow>
          page_y (set_pixmaps c pms) ! Suc i
            = page_y (set_pixmaps c pms) ! i + int (pm_height (pms ! i)) + PAGE_GAP)
   \<and> (\<forall>i<length pms. \<exists>r. page_rect (set_pixmaps c pms) (int i) = Inr r
          \<and> rect_y r = page_y (set_pixmaps c pms) ! i
          \<and> rect_height r = int (pm_height (pms ! i)))
   \<and> (\<forall>i j r s. i < j \<and> j < length pms
          \<and> page_rect (set_pixmaps c pms) (int i) = Inr r
          \<and> page_rect (set_pixmaps c pms) (int j) = Inr s
          \<longrightarrow> rect_y r < rect_y s \<and> rect_bottom r < rect_y s)
   \<and> (\<forall>i r s. Suc i < length pms
          \<and> page_rect (set_pixmaps c pms) (int i) = Inr r
          \<and> page_rect (set_pixmaps c pms) (int (Suc i)) = Inr s
          \<longrightarrow> rect_y s - (rect_y r + rect_height r) = PAGE_GAP)"
proof -
  have p1: "length (page_y (set_pixmaps c pms)) = length pms"
    by (rule page_y_length)
  have p2: "pms \<noteq> [] \<longrightarrow> page_y (set_pixmaps c pms) ! 0 = PAGE_GAP"
  proof
    assume "pms \<noteq> []"
    then have "0 < length pms" by simp
    from page_y_nth [OF this, of c] show "page_y (set_pixmaps c pms) ! 0 = PAGE_GAP"
      by simp
  qed
  have p3: "\<forall>i. Suc i < length pms \<longrightarrow>
          page_y (set_pixmaps c pms) ! Suc i
            = page_y (set_pixmaps c pms) ! i + int (pm_height (pms ! i)) + PAGE_GAP"
    by (simp add: page_y_Suc)
  have p4: "\<forall>i<length pms. \<exists>r. page_rect (set_pixmaps c pms) (int i) = Inr r
          \<and> rect_y r = page_y (set_pixmaps c pms) ! i
          \<and> rect_height r = int (pm_height (pms ! i))"
    by (simp add: page_rect_in_range QRect_xywh_simps)
  have p5: "\<forall>i j r s. i < j \<and> j < length pms
          \<and> page_rect (set_pixmaps c pms) (int i) = Inr r
          \<and> page_rect (set_pixmaps c pms) (int j) = Inr s
          \<longrightarrow> rect_y r < rect_y s \<and> rect_bottom r < rect_y s"
  proof (intro allI impI)
    fix i j r s
    assume a: "i < j \<and> j < length pms
          \<and> page_rect (set_pixmaps c pms) (int i) = Inr r
          \<and> page_rect (set_pixmaps c pms) (int j) = Inr s"
    then have ij: "i < j" "j < length pms" "i < length pms" by simp_all
    from a have r: "rect_y r = page_y (set_pixmaps c pms) ! i"
        "rect_bottom r = page_y (set_pixmaps c pms) ! i + int (pm_height (pms ! i)) - 1"
      and s: "rect_y s = page_y (set_pixmaps c pms) ! j"
      using ij by (auto simp: page_rect_in_range QRect_xywh_simps)
    from page_y_mono [OF ij(1,2), of c] r s
    show "rect_y r < rect_y s \<and> rect_bottom r < rect_y s"
      by (simp add: PAGE_GAP_def)
  qed
  have p6: "\<forall>i r s. Suc i < length pms
          \<and> page_rect (set_pixmaps c pms) (int i) = Inr r
          \<and> page_rect (set_pixmaps c pms) (int (Suc i)) = Inr s
          \<longrightarrow> rect_y s - (rect_y r + rect_height r) = PAGE_GAP"
  proof (intro allI impI)
    fix i r s
    assume a: "Suc i < length pms
          \<and> page_rect (set_pixmaps c pms) (int i) = Inr r
          \<and> page_rect (set_pixmaps c pms) (int (Suc i)) = Inr s"
    then have i: "Suc i < length pms" "i < length pms" by simp_all
    from a have r: "rect_y r = page_y (set_pixmaps c pms) ! i"
        "rect_height r = int (pm_height (pms ! i))"
      using i(2) page_rect_in_range [OF i(2), of c] by (auto simp: QRect_xywh_simps)
    from a have s: "rect_y s = page_y (set_pixmaps c pms) ! Suc i"
      using page_rect_in_range [OF i(1), of c] by (auto simp: QRect_xywh_simps)
    from page_y_Suc [OF i(1), of c] r s
    show "rect_y s - (rect_y r + rect_height r) = PAGE_GAP"
      by simp
  qed
  show ?thesis
    by (intro conjI) (rule p1 p2 p3 p4 p5 p6)+
qed

theorem set_pixmaps_layout_witness:
  "[\<lparr>pm_width = 400, pm_height = 600\<rparr>, \<lparr>pm_width = 500, pm_height = 600\<rparr>] \<noteq> []
   \<and> Suc 0 < length [\<lparr>pm_width = 400, pm_height = 600\<rparr>, \<lparr>pm_width = 500, pm_height = 600\<rparr>]
   \<and> page_y (set_pixmaps PageCanvas_init
        [\<lparr>pm_width = 400, pm_height = 600\<rparr>, \<lparr>pm_width = 500, pm_height = 600\<rparr>]) ! 0 = 10
   \<and> page_y (set_pixmaps PageCanvas_init
        [\<lparr>pm_width = 400, pm_height = 600\<rparr>, \<lparr>pm_width = 500, pm_height = 600\<rparr>]) ! Suc 0 = 620
   \<and> (\<exists>r s. page_rect (set_pixmaps PageCanvas_init
                [\<lparr>pm_width = 400, pm_height = 600\<rparr>, \<lparr>pm_width = 500, pm_height = 600\<rparr>]) 0 = Inr r
          \<and> page_rect (set_pixmaps PageCanvas_init
                [\<lparr>pm_width = 400, pm_height = 600\<rparr>, \<lparr>pm_width = 500, pm_height = 600\<rparr>]) 1 = Inr s
          \<and> rect_bottom r < rect_y s
          \<and> rect_y s - (rect_y r + rect_height r) = 10)"
proof -
  let ?pms = "[\<lparr>pm_width = 400, pm_height = 600\<rparr>, \<lparr>pm_width = 500, pm_height = 600\<rparr>]"
  let ?c = "set_pixmaps PageCanvas_init ?pms"
  note t = set_pixmaps_layout [of PageCanvas_init ?pms]
  have h1: "?pms \<noteq> []" and h2: "Suc 0 < length ?pms" and h3: "0 < length ?pms"
    by simp_all
  from t h1 have y0: "page_y ?c ! 0 = PAGE_GAP"
    by blast
  from t h2 have y1: "page_y ?c ! Suc 0 = page_y ?c ! 0 + int (pm_height (?pms ! 0)) + PAGE_GAP"
    by blast
  from t h3 obtain r where r: "page_rect ?c (int 0) = Inr r"
    by blast
  from t h2 obtain s where s: "page_rect ?c (int (Suc 0)) = Inr s"
    by blast
  from t h2 r s have d: "rect_bottom r < rect_y s"
    by blast
  from t h2 r s have g: "rect_y s - (rect_y r + rect_height r) = PAGE_GAP"
    by blast
  from r s d g have "\<exists>r s. page_rect ?c 0 = Inr r \<and> page_rect ?c 1 = Inr s
       \<and> rect_bottom r < rect_y s \<and> rect_y s - (rect_y r + rect_height r) = 10"
    by (auto simp: PAGE_GAP_def)
  with h1 h2 y0 y1 show ?thesis
    by (simp add: PAGE_GAP_def)
qed

text \<open>
  C2. After \<open>set_pixmaps\<close> on any list of page images and for every integer \<open>y\<close>:
  if some page's top is at most \<open>y\<close>, \<open>page_at_y\<close> returns the greatest index of such a
  page; if \<open>y\<close> is less than every page's top, or there are no pages, it returns 0; for
  \<open>y\<close> not less than the last page's top it returns the last index; and the top of page
  \<open>i\<close> itself maps to \<open>i\<close>.
\<close>

theorem page_at_y_greatest:
  "((\<exists>i<length pms. page_y (set_pixmaps c pms) ! i \<le> y) \<longrightarrow>
       0 \<le> page_at_y (set_pixmaps c pms) y
       \<and> nat (page_at_y (set_pixmaps c pms) y) < length pms
       \<and> page_y (set_pixmaps c pms) ! nat (page_at_y (set_pixmaps c pms) y) \<le> y
       \<and> (\<forall>j<length pms. page_y (set_pixmaps c pms) ! j \<le> y
              \<longrightarrow> int j \<le> page_at_y (set_pixmaps c pms) y))
   \<and> ((\<forall>i<length pms. y < page_y (set_pixmaps c pms) ! i) \<longrightarrow>
         page_at_y (set_pixmaps c pms) y = 0)
   \<and> (pms \<noteq> [] \<and> page_y (set_pixmaps c pms) ! (length pms - 1) \<le> y \<longrightarrow>
         page_at_y (set_pixmaps c pms) y = int (length pms) - 1)
   \<and> (\<forall>i<length pms. page_at_y (set_pixmaps c pms) (page_y (set_pixmaps c pms) ! i) = int i)"
proof -
  let ?c = "set_pixmaps c pms"
  have p1: "(\<exists>i<length pms. page_y ?c ! i \<le> y) \<longrightarrow>
       0 \<le> page_at_y ?c y \<and> nat (page_at_y ?c y) < length pms
       \<and> page_y ?c ! nat (page_at_y ?c y) \<le> y
       \<and> (\<forall>j<length pms. page_y ?c ! j \<le> y \<longrightarrow> int j \<le> page_at_y ?c y)"
  proof
    assume "\<exists>i<length pms. page_y ?c ! i \<le> y"
    from page_at_y_loop_found [OF this]
    show "0 \<le> page_at_y ?c y \<and> nat (page_at_y ?c y) < length pms
       \<and> page_y ?c ! nat (page_at_y ?c y) \<le> y
       \<and> (\<forall>j<length pms. page_y ?c ! j \<le> y \<longrightarrow> int j \<le> page_at_y ?c y)"
      by (simp add: page_at_y_def page_y_length)
  qed
  have p2: "(\<forall>i<length pms. y < page_y ?c ! i) \<longrightarrow> page_at_y ?c y = 0"
  proof
    assume "\<forall>i<length pms. y < page_y ?c ! i"
    from page_at_y_loop_none [OF this]
    show "page_at_y ?c y = 0"
      by (simp add: page_at_y_def page_y_length)
  qed
  have p3: "pms \<noteq> [] \<and> page_y ?c ! (length pms - 1) \<le> y \<longrightarrow>
         page_at_y ?c y = int (length pms) - 1"
  proof
    assume a: "pms \<noteq> [] \<and> page_y ?c ! (length pms - 1) \<le> y"
    then obtain k where k: "length pms = Suc k"
      by (cases pms) auto
    with a show "page_at_y ?c y = int (length pms) - 1"
      by (simp add: page_at_y_def page_y_length)
  qed
  have p4: "\<forall>i<length pms. page_at_y ?c (page_y ?c ! i) = int i"
  proof (intro allI impI)
    fix i assume i: "i < length pms"
    have ex: "\<exists>j<length pms. page_y ?c ! j \<le> page_y ?c ! i"
      using i by auto
    from page_at_y_loop_found [OF ex]
    have r: "0 \<le> page_at_y ?c (page_y ?c ! i)"
        "nat (page_at_y ?c (page_y ?c ! i)) < length pms"
        "page_y ?c ! nat (page_at_y ?c (page_y ?c ! i)) \<le> page_y ?c ! i"
        "int i \<le> page_at_y ?c (page_y ?c ! i)"
      using i by (simp_all add: page_at_y_def page_y_length)
    have "\<not> i < nat (page_at_y ?c (page_y ?c ! i))"
    proof
      assume "i < nat (page_at_y ?c (page_y ?c ! i))"
      from page_y_strict [OF this r(2), of c] r(3) show False by simp
    qed
    with r(1,4) show "page_at_y ?c (page_y ?c ! i) = int i"
      by simp
  qed
  show ?thesis
    by (intro conjI) (rule p1 p2 p3 p4)+
qed

theorem page_at_y_greatest_witness:
  "(\<exists>i<length [\<lparr>pm_width = 400, pm_height = 600\<rparr>, \<lparr>pm_width = 500, pm_height = 600\<rparr>].
       page_y (set_pixmaps PageCanvas_init
          [\<lparr>pm_width = 400, pm_height = 600\<rparr>, \<lparr>pm_width = 500, pm_height = 600\<rparr>]) ! i \<le> 615)
   \<and> page_at_y (set_pixmaps PageCanvas_init
          [\<lparr>pm_width = 400, pm_height = 600\<rparr>, \<lparr>pm_width = 500, pm_height = 600\<rparr>]) 615 = 0
   \<and> page_at_y (set_pixmaps PageCanvas_init
          [\<lparr>pm_width = 400, pm_height = 600\<rparr>, \<lparr>pm_width = 500, pm_height = 600\<rparr>]) 620 = 1
   \<and> page_at_y (set_pixmaps PageCanvas_init
          [\<lparr>pm_width = 400, pm_height = 600\<rparr>, \<lparr>pm_width = 500, pm_height = 600\<rparr>]) 5 = 0
   \<and> page_at_y (set_pixmaps PageCanvas_init
          [\<lparr>pm_width = 400, pm_height = 600\<rparr>, \<lparr>pm_width = 500, pm_height = 600\<rparr>]) 5000 = 1"
proof -
  let ?pms = "[\<lparr>pm_width = 400, pm_height = 600\<rparr>, \<lparr>pm_width = 500, pm_height = 600\<rparr>]"
  let ?c = "set_pixmaps PageCanvas_init ?pms"
  have ys: "page_y ?c = [10, 620]"
    by (simp add: set_pixmaps_fields PAGE_GAP_def)
  have len: "length ?pms = 2"
    by simp
  have lt2: "\<And>P. (\<forall>i<2::nat. P i) \<longleftrightarrow> P 0 \<and> P 1"
    by (auto simp: less_2_cases_iff)
  have ex2: "\<And>P. (\<exists>i<2::nat. P i) \<longleftrightarrow> P 0 \<or> P 1"
    by (auto simp: less_2_cases_iff)
  have h615: "\<exists>i<length ?pms. page_y ?c ! i \<le> 615"
    unfolding ys len by (simp add: ex2)
  have h5: "\<forall>i<length ?pms. 5 < page_y ?c ! i"
    unfolding ys len by (simp add: lt2)
  have h5000: "?pms \<noteq> [] \<and> page_y ?c ! (length ?pms - 1) \<le> 5000"
    unfolding ys len by simp
  have a: "page_at_y ?c 615 = 0"
  proof -
    from page_at_y_greatest [of ?pms PageCanvas_init 615] h615
    have b: "0 \<le> page_at_y ?c 615" "nat (page_at_y ?c 615) < length ?pms"
      "page_y ?c ! nat (page_at_y ?c 615) \<le> 615"
      by blast+
    have "nat (page_at_y ?c 615) \<noteq> 1"
      using b(3) unfolding ys by auto
    with b(2) have "nat (page_at_y ?c 615) = 0"
      unfolding len by linarith
    with b(1) show ?thesis by simp
  qed
  have b: "page_at_y ?c 620 = 1"
  proof -
    have "1 < length ?pms" by simp
    moreover from page_at_y_greatest [of ?pms PageCanvas_init 620]
    have "\<forall>i<length ?pms. page_at_y ?c (page_y ?c ! i) = int i"
      by blast
    ultimately have "page_at_y ?c (page_y ?c ! 1) = int 1"
      by blast
    then show ?thesis unfolding ys by simp
  qed
  have c: "page_at_y ?c 5 = 0"
    using page_at_y_greatest [of ?pms PageCanvas_init 5] h5 by blast
  have d: "page_at_y ?c 5000 = 1"
  proof -
    from page_at_y_greatest [of ?pms PageCanvas_init 5000] h5000
    have "page_at_y ?c 5000 = int (length ?pms) - 1"
      by blast
    then show ?thesis by simp
  qed
  from h615 a b c d show ?thesis
    by blast
qed

text \<open>
  C3. For every non-empty sequence of page images, after \<open>set_pixmaps\<close> the total height
  \<open>_total_h\<close> is the last page's top plus its height plus one gap, and the total width
  \<open>_max_w\<close> is the greatest page width plus two gaps. \<open>sizeHint\<close> reports this pair, and it
  is the size of the widget itself as long as neither side exceeds the toolkit's bound
  on widget sizes and the pair is not the bound on both sides.
\<close>

theorem canvas_size_nonempty:
  "pms \<noteq> [] \<Longrightarrow>
     total_h (set_pixmaps c pms)
       = page_y (set_pixmaps c pms) ! (length pms - 1) + int (pm_height (last pms)) + PAGE_GAP
     \<and> max_w (set_pixmaps c pms) = Max ((\<lambda>pm. int (pm_width pm)) ` set pms) + PAGE_GAP * 2
     \<and> sizeHint (set_pixmaps c pms) = (max_w (set_pixmaps c pms), total_h (set_pixmaps c pms))
     \<and> (max_w (set_pixmaps c pms) \<le> QWIDGETSIZE_MAX \<and> total_h (set_pixmaps c pms) \<le> QWIDGETSIZE_MAX
          \<and> (max_w (set_pixmaps c pms), total_h (set_pixmaps c pms))
               \<noteq> (QWIDGETSIZE_MAX, QWIDGETSIZE_MAX)
        \<longrightarrow> (widget_w (set_pixmaps c pms), widget_h (set_pixmaps c pms))
              = (max_w (set_pixmaps c pms), total_h (set_pixmaps c pms)))"
proof -
  assume ne: "pms \<noteq> []"
  have w: "max_w (set_pixmaps c pms) \<le> QWIDGETSIZE_MAX \<and> total_h (set_pixmaps c pms) \<le> QWIDGETSIZE_MAX
          \<and> (max_w (set_pixmaps c pms), total_h (set_pixmaps c pms))
               \<noteq> (QWIDGETSIZE_MAX, QWIDGETSIZE_MAX)
        \<longrightarrow> (widget_w (set_pixmaps c pms), widget_h (set_pixmaps c pms))
              = (max_w (set_pixmaps c pms), total_h (set_pixmaps c pms))"
    by (auto simp add: set_pixmaps_widget)
  have s: "sizeHint (set_pixmaps c pms) = (max_w (set_pixmaps c pms), total_h (set_pixmaps c pms))"
    using ne by (simp add: sizeHint_def set_pixmaps_fields(1))
  from total_h_eq [OF ne, of c] max_w_eq [OF ne, of c] s w show ?thesis
    by (intro conjI)
qed

theorem canvas_size_nonempty_witness:
  "[\<lparr>pm_width = 600, pm_height = 800\<rparr>] \<noteq> []
   \<and> total_h (set_pixmaps PageCanvas_init [\<lparr>pm_width = 600, pm_height = 800\<rparr>]) = 820
   \<and> max_w (set_pixmaps PageCanvas_init [\<lparr>pm_width = 600, pm_height = 800\<rparr>]) = 620
   \<and> sizeHint (set_pixmaps PageCanvas_init [\<lparr>pm_width = 600, pm_height = 800\<rparr>]) = (620, 820)
   \<and> (620 :: int) \<le> QWIDGETSIZE_MAX \<and> (820 :: int) \<le> QWIDGETSIZE_MAX
   \<and> (620 :: int, 820 :: int) \<noteq> (QWIDGETSIZE_MAX, QWIDGETSIZE_MAX)
   \<and> (widget_w (set_pixmaps PageCanvas_init [\<lparr>pm_width = 600, pm_height = 800\<rparr>]),
       widget_h (set_pixmaps PageCanvas_init [\<lparr>pm_width = 600, pm_height = 800\<rparr>])) = (620, 820)"
proof -
  let ?pms = "[\<lparr>pm_width = 600, pm_height = 800\<rparr>]"
  let ?c = "set_pixmaps PageCanvas_init ?pms"
  have h: "?pms \<noteq> []" by simp
  have y0: "page_y ?c ! (length ?pms - 1) = 10"
    by (simp add: set_pixmaps_fields PAGE_GAP_def)
  note t = canvas_size_nonempty [OF h, of PageCanvas_init]
  from t y0 have a: "total_h ?c = 820" "max_w ?c = 620" "sizeHint ?c = (620, 820)"
    by (simp_all add: PAGE_GAP_def)
  have b: "(620 :: int) \<le> QWIDGETSIZE_MAX" "(820 :: int) \<le> QWIDGETSIZE_MAX"
    "(620 :: int, 820 :: int) \<noteq> (QWIDGETSIZE_MAX, QWIDGETSIZE_MAX)"
    by (simp_all add: QWIDGETSIZE_MAX_def)
  from t a b have "(widget_w ?c, widget_h ?c) = (620, 820)"
    by simp
  with h a b show ?thesis
    by simp
qed

text \<open>
  A single page 16777300 pixels high is beyond the bound: the widget is then 16777215
  pixels high, not \<open>_total_h\<close>.
\<close>

lemma widget_height_bounded:
  "total_h (set_pixmaps PageCanvas_init [\<lparr>pm_width = 1, pm_height = 16777300\<rparr>]) = 16777320
   \<and> widget_h (set_pixmaps PageCanvas_init [\<lparr>pm_width = 1, pm_height = 16777300\<rparr>]) = 16777215"
  by (simp add: set_pixmaps_fields set_pixmaps_widget PAGE_GAP_def QWIDGETSIZE_MAX_def)

text \<open>
  C4. For every layout and every integer index, \<open>page_rect\<close> returns a rectangle and
  never raises. For an index within \<open>[0, page count)\<close> the rectangle's \<open>x\<close> is half of what
  the widget's width exceeds the page's width by, and 0 if the page is wider; its \<open>y\<close> is
  the page's top in the layout, and its width and height are those of the page image.
  For any other index it is the default rectangle, which is empty and has width and
  height 0. The widget's width is \<open>_max_w\<close> bounded by the toolkit; while \<open>_max_w\<close> is
  below that bound the page is centred in \<open>_max_w\<close> and \<open>x\<close> is at least one gap.
\<close>

theorem page_rect_total:
  "(0 \<le> idx \<and> idx < int (length pms) \<longrightarrow>
      (\<exists>r. page_rect (set_pixmaps c pms) idx = Inr r
         \<and> rect_x r = max 0 ((widget_w (set_pixmaps c pms) - int (pm_width (pms ! nat idx))) div 2)
         \<and> rect_y r = page_y (set_pixmaps c pms) ! nat idx
         \<and> rect_width r = int (pm_width (pms ! nat idx))
         \<and> rect_height r = int (pm_height (pms ! nat idx))
         \<and> (max_w (set_pixmaps c pms) < QWIDGETSIZE_MAX \<longrightarrow>
               rect_x r = (max_w (set_pixmaps c pms) - int (pm_width (pms ! nat idx))) div 2
               \<and> PAGE_GAP \<le> rect_x r)))
   \<and> (\<not> (0 \<le> idx \<and> idx < int (length pms)) \<longrightarrow>
         page_rect (set_pixmaps c pms) idx = Inr QRect_null)
   \<and> page_rect (set_pixmaps c pms) idx \<noteq> Inl IndexError
   \<and> rect_width QRect_null = 0 \<and> rect_height QRect_null = 0 \<and> isEmpty QRect_null
   \<and> widget_w (set_pixmaps c pms) =
        (if QWIDGETSIZE_MAX \<le> max_w (set_pixmaps c pms)
            \<and> QWIDGETSIZE_MAX \<le> total_h (set_pixmaps c pms)
         then widget_w c else min (max_w (set_pixmaps c pms)) QWIDGETSIZE_MAX)"
proof -
  let ?c = "set_pixmaps c pms"
  have p1: "0 \<le> idx \<and> idx < int (length pms) \<longrightarrow>
      (\<exists>r. page_rect ?c idx = Inr r
         \<and> rect_x r = max 0 ((widget_w ?c - int (pm_width (pms ! nat idx))) div 2)
         \<and> rect_y r = page_y ?c ! nat idx
         \<and> rect_width r = int (pm_width (pms ! nat idx))
         \<and> rect_height r = int (pm_height (pms ! nat idx))
         \<and> (max_w ?c < QWIDGETSIZE_MAX \<longrightarrow>
               rect_x r = (max_w ?c - int (pm_width (pms ! nat idx))) div 2
               \<and> PAGE_GAP \<le> rect_x r))"
  proof
    assume a: "0 \<le> idx \<and> idx < int (length pms)"
    then have i: "nat idx < length pms" "int (nat idx) = idx"
      by (simp_all add: nat_less_iff)
    then have ne: "pms \<noteq> []"
      by auto
    let ?w = "int (pm_width (pms ! nat idx))"
    have "?w \<in> (\<lambda>pm. int (pm_width pm)) ` set pms"
      using i(1) by simp
    then have "?w \<le> Max ((\<lambda>pm. int (pm_width pm)) ` set pms)"
      by (intro Max_ge) simp_all
    then have wide: "?w + PAGE_GAP * 2 \<le> max_w ?c"
      by (simp add: max_w_eq [OF ne])
    have small: "max_w ?c < QWIDGETSIZE_MAX \<longrightarrow>
           max 0 ((widget_w ?c - ?w) div 2) = (max_w ?c - ?w) div 2
           \<and> PAGE_GAP \<le> (max_w ?c - ?w) div 2"
    proof
      assume lt: "max_w ?c < QWIDGETSIZE_MAX"
      then have "widget_w ?c = max_w ?c"
        by (simp add: set_pixmaps_widget(1))
      moreover have "PAGE_GAP \<le> (max_w ?c - ?w) div 2"
        using wide by (simp add: PAGE_GAP_def)
      ultimately show "max 0 ((widget_w ?c - ?w) div 2) = (max_w ?c - ?w) div 2
           \<and> PAGE_GAP \<le> (max_w ?c - ?w) div 2"
        by (simp add: PAGE_GAP_def)
    qed
    from page_rect_in_range [OF i(1), of c] i(2) small
    show "\<exists>r. page_rect ?c idx = Inr r
         \<and> rect_x r = max 0 ((widget_w ?c - ?w) div 2)
         \<and> rect_y r = page_y ?c ! nat idx
         \<and> rect_width r = ?w
         \<and> rect_height r = int (pm_height (pms ! nat idx))
         \<and> (max_w ?c < QWIDGETSIZE_MAX \<longrightarrow>
               rect_x r = (max_w ?c - ?w) div 2 \<and> PAGE_GAP \<le> rect_x r)"
      by (simp add: QRect_xywh_simps)
  qed
  have p2: "\<not> (0 \<le> idx \<and> idx < int (length pms)) \<longrightarrow> page_rect ?c idx = Inr QRect_null"
    by (simp add: page_rect_out_of_range)
  have p3: "page_rect ?c idx \<noteq> Inl IndexError"
  proof (cases "0 \<le> idx \<and> idx < int (length pms)")
    case True
    then have i: "nat idx < length pms" "int (nat idx) = idx"
      by (simp_all add: nat_less_iff)
    from page_rect_in_range [OF i(1), of c] i(2) show ?thesis by simp
  next
    case False
    then show ?thesis by (simp add: page_rect_out_of_range)
  qed
  have p4: "rect_width QRect_null = 0" and p5: "rect_height QRect_null = 0"
    and p6: "isEmpty QRect_null"
    by (simp_all add: QRect_null_def rect_width_def rect_height_def isEmpty_def)
  note p7 = set_pixmaps_widget(1) [of c pms]
  show ?thesis
    by (intro conjI) (rule p1 p2 p3 p4 p5 p6 p7)+
qed

theorem page_rect_total_witness:
  "(0::int) \<le> 0 \<and> (0::int) < int (length [\<lparr>pm_width = 600, pm_height = 800\<rparr>])
   \<and> page_rect (set_pixmaps PageCanvas_init [\<lparr>pm_width = 600, pm_height = 800\<rparr>]) 0
       = Inr (QRect_xywh 10 10 600 800)
   \<and> \<not> ((0::int) \<le> 1 \<and> (1::int) < int (length [\<lparr>pm_width = 600, pm_height = 800\<rparr>]))
   \<and> page_rect (set_pixmaps PageCanvas_init [\<lparr>pm_width = 600, pm_height = 800\<rparr>]) 1
       = Inr QRect_null
   \<and> page_rect (set_pixmaps PageCanvas_init [\<lparr>pm_width = 600, pm_height = 800\<rparr>]) (- 1)
       = Inr QRect_null
   \<and> max_w (set_pixmaps PageCanvas_init [\<lparr>pm_width = 600, pm_height = 800\<rparr>]) < QWIDGETSIZE_MAX
   \<and> (0::int) < int (length [\<lparr>pm_width = 16777300, pm_height = 1\<rparr>])
   \<and> page_rect (set_pixmaps PageCanvas_init [\<lparr>pm_width = 16777300, pm_height = 1\<rparr>]) 0
       = Inr (QRect_xywh 0 10 16777300 1)"
proof -
  let ?pms = "[\<lparr>pm_width = 600, pm_height = 800\<rparr>]"
  let ?c = "set_pixmaps PageCanvas_init ?pms"
  let ?big = "[\<lparr>pm_width = 16777300, pm_height = 1\<rparr>]"
  let ?d = "set_pixmaps PageCanvas_init ?big"
  have h0: "(0::int) \<le> 0 \<and> (0::int) < int (length ?pms)"
    by simp
  have h1: "\<not> ((0::int) \<le> 1 \<and> (1::int) < int (length ?pms))"
    by simp
  have hm: "\<not> ((0::int) \<le> - 1 \<and> (- 1::int) < int (length ?pms))"
    by simp
  have hb: "(0::int) \<le> 0 \<and> (0::int) < int (length ?big)"
    by simp
  have st: "max_w ?c = 620" "page_y ?c = [10]"
    by (simp_all add: set_pixmaps_fields PAGE_GAP_def)
  have lt: "max_w ?c < QWIDGETSIZE_MAX"
    by (simp add: st QWIDGETSIZE_MAX_def)
  have sb: "max_w ?d = 16777320" "total_h ?d = 21" "page_y ?d = [10]"
    by (simp_all add: set_pixmaps_fields PAGE_GAP_def)
  from page_rect_total [of 0 ?pms PageCanvas_init] h0 lt
  obtain r where r: "page_rect ?c 0 = Inr r"
      "rect_x r = (max_w ?c - int (pm_width (?pms ! nat 0))) div 2"
      "rect_y r = page_y ?c ! nat 0"
      "rect_width r = int (pm_width (?pms ! nat 0))"
      "rect_height r = int (pm_height (?pms ! nat 0))"
    by blast
  from r(2-5) have "r = QRect_xywh 10 10 600 800"
    unfolding st by (cases r) (simp add: QRect_xywh_def rect_x_def rect_y_def rect_width_def rect_height_def)
  with r(1) have a: "page_rect ?c 0 = Inr (QRect_xywh 10 10 600 800)"
    by simp
  from page_rect_total [of 1 ?pms PageCanvas_init] h1
  have b: "page_rect ?c 1 = Inr QRect_null"
    by blast
  from page_rect_total [of "- 1" ?pms PageCanvas_init] hm
  have c: "page_rect ?c (- 1) = Inr QRect_null"
    by blast
  note tb = page_rect_total [of 0 ?big PageCanvas_init]
  from tb have wd: "widget_w ?d = 16777215"
    unfolding sb by (simp add: QWIDGETSIZE_MAX_def)
  from tb hb
  obtain q where q: "page_rect ?d 0 = Inr q"
      "rect_x q = max 0 ((widget_w ?d - int (pm_width (?big ! nat 0))) div 2)"
      "rect_y q = page_y ?d ! nat 0"
      "rect_width q = int (pm_width (?big ! nat 0))"
      "rect_height q = int (pm_height (?big ! nat 0))"
    by blast
  from q(2-5) have "q = QRect_xywh 0 10 16777300 1"
    unfolding sb wd by (cases q) (simp add: QRect_xywh_def rect_x_def rect_y_def rect_width_def rect_height_def)
  with q(1) have d: "page_rect ?d 0 = Inr (QRect_xywh 0 10 16777300 1)"
    by simp
  from h0 h1 hb lt a b c d show ?thesis
    by blast
qed

text \<open>
  C5. \<open>set_pixmaps\<close> is idempotent: a second call with the same sequence leaves the canvas
  as the first call left it, in particular the layout entries and the total size.
\<close>

theorem set_pixmaps_idempotent:
  "set_pixmaps (set_pixmaps c pms) pms = set_pixmaps c pms
   \<and> page_y (set_pixmaps (set_pixmaps c pms) pms) = page_y (set_pixmaps c pms)
   \<and> (max_w (set_pixmaps (set_pixmaps c pms) pms), total_h (set_pixmaps (set_pixmaps c pms) pms))
       = (max_w (set_pixmaps c pms), total_h (set_pixmaps c pms))
   \<and> sizeHint (set_pixmaps (set_pixmaps c pms) pms) = sizeHint (set_pixmaps c pms)"
proof -
  have "set_pixmaps (set_pixmaps c pms) pms = set_pixmaps c pms"
    by (simp add: set_pixmaps_def recompute_def setFixedSize_def Let_def split: prod.split)
  then show ?thesis by simp
qed

text \<open>
  C6, as the code has it. After \<open>set_pixmaps\<close> with the empty sequence the canvas has two
  sizes. \<open>sizeHint\<close> reports the placeholder 100 x 100. The layout is empty, and the size
  that \<open>_recompute\<close> computes from it, stores in \<open>_max_w\<close> and \<open>_total_h\<close> and fixes for the
  widget, is the bare padding: two gaps wide and one gap high, 20 x 10. \<open>page_rect\<close>
  returns the default rectangle, which is empty, at index 0 and at every other index.
\<close>

theorem set_pixmaps_empty:
  "sizeHint (set_pixmaps c []) = (100, 100)
   \<and> page_y (set_pixmaps c []) = []
   \<and> (max_w (set_pixmaps c []), total_h (set_pixmaps c [])) = (PAGE_GAP * 2, PAGE_GAP)
   \<and> (widget_w (set_pixmaps c []), widget_h (set_pixmaps c [])) = (20, 10)
   \<and> page_rect (set_pixmaps c []) 0 = Inr QRect_null
   \<and> page_rect (set_pixmaps c []) idx = Inr QRect_null
   \<and> isEmpty QRect_null \<and> rect_width QRect_null = 0 \<and> rect_height QRect_null = 0"
proof -
  have f: "page_y (set_pixmaps c []) = []" "max_w (set_pixmaps c []) = 20"
    "total_h (set_pixmaps c []) = 10"
    by (simp_all add: set_pixmaps_fields PAGE_GAP_def)
  have w: "widget_w (set_pixmaps c []) = 20" "widget_h (set_pixmaps c []) = 10"
    unfolding set_pixmaps_widget f by (simp_all add: QWIDGETSIZE_MAX_def)
  have r: "\<And>i. page_rect (set_pixmaps c []) i = Inr QRect_null"
    by (rule page_rect_out_of_range) simp
  show ?thesis
    by (simp add: f w r sizeHint_def set_pixmaps_fields(1) PAGE_GAP_def QRect_null_def
                  isEmpty_def rect_width_def rect_height_def)
qed

text \<open>
  The claim that one placeholder size is reported fails on the initial canvas: the size
  hint and the size of the widget differ.
\<close>

theorem set_pixmaps_empty_two_sizes:
  "sizeHint (set_pixmaps PageCanvas_init []) = (100, 100)
   \<and> (widget_w (set_pixmaps PageCanvas_init []), widget_h (set_pixmaps PageCanvas_init []))
       = (20, 10)
   \<and> (max_w (set_pixmaps PageCanvas_init []), total_h (set_pixmaps PageCanvas_init []))
       = (20, 10)
   \<and> sizeHint (set_pixmaps PageCanvas_init [])
       \<noteq> (widget_w (set_pixmaps PageCanvas_init []), widget_h (set_pixmaps PageCanvas_init []))"
proof -
  have f: "max_w (set_pixmaps PageCanvas_init []) = 20"
    "total_h (set_pixmaps PageCanvas_init []) = 10"
    by (simp_all add: set_pixmaps_fields PAGE_GAP_def)
  have w: "widget_w (set_pixmaps PageCanvas_init []) = 20"
    "widget_h (set_pixmaps PageCanvas_init []) = 10"
    unfolding set_pixmaps_widget f by (simp_all add: QWIDGETSIZE_MAX_def)
  show ?thesis
    by (simp add: f w sizeHint_def set_pixmaps_fields(1))
qed

section \<open>Scroll events and the page-changed notification\<close>

lemma on_scroll_canvas: "canvas (on_scroll v) = canvas v"
  by (simp add: on_scroll_def Let_def)

lemma scroll_event_canvas: "canvas (scroll_event v ev) = canvas v"
  by (simp add: scroll_event_def on_scroll_canvas)

lemma scroll_event_same:
  "active_page (canvas v) ev = current_page v \<Longrightarrow>
   emitted (scroll_event v ev) = emitted v \<and> current_page (scroll_event v ev) = current_page v"
  by (simp add: scroll_event_def on_scroll_def active_page_def Let_def)

lemma scroll_event_changed:
  "pixmaps (canvas v) \<noteq> [] \<Longrightarrow> active_page (canvas v) ev \<noteq> current_page v \<Longrightarrow>
   emitted (scroll_event v ev) = emitted v @ [active_page (canvas v) ev]
   \<and> current_page (scroll_event v ev) = active_page (canvas v) ev"
  by (simp add: scroll_event_def on_scroll_def active_page_def Let_def)

lemma scroll_event_empty:
  "pixmaps (canvas v) = [] \<Longrightarrow>
   emitted (scroll_event v ev) = emitted v \<and> current_page (scroll_event v ev) = current_page v"
  by (simp add: scroll_event_def on_scroll_def)

lemma scroll_events_empty:
  "pixmaps (canvas v) = [] \<Longrightarrow> emitted (scroll_events v evs) = emitted v"
  unfolding scroll_events_def
proof (induction evs arbitrary: v)
  case Nil
  then show ?case by simp
next
  case (Cons ev evs)
  have "pixmaps (canvas (scroll_event v ev)) = []"
    using Cons.prems by (simp add: scroll_event_canvas)
  from Cons.IH [OF this] scroll_event_empty [OF Cons.prems, of ev]
  show ?case by simp
qed

lemma scroll_events_remdups:
  "pixmaps (canvas v) \<noteq> [] \<Longrightarrow>
   emitted (scroll_events v evs)
     = emitted v @ tl (remdups_adj (current_page v # map (active_page (canvas v)) evs))"
  unfolding scroll_events_def
proof (induction evs arbitrary: v)
  case Nil
  then show ?case by simp
next
  case (Cons ev evs)
  let ?v = "scroll_event v ev"
  have c: "canvas ?v = canvas v"
    by (rule scroll_event_canvas)
  with Cons.prems have ne: "pixmaps (canvas ?v) \<noteq> []"
    by simp
  note IH = Cons.IH [OF ne, unfolded c]
  show ?case
  proof (cases "active_page (canvas v) ev = current_page v")
    case True
    from scroll_event_same [OF True] IH True show ?thesis
      by simp
  next
    case False
    from scroll_event_changed [OF Cons.prems False] IH False show ?thesis
      by simp
  qed
qed

lemma scroll_events_distinct_adj:
  "\<exists>new. emitted (scroll_events v evs) = emitted v @ new \<and> distinct_adj (current_page v # new)"
proof (cases "pixmaps (canvas v) = []")
  case True
  then show ?thesis by (simp add: scroll_events_empty)
next
  case False
  let ?xs = "current_page v # map (active_page (canvas v)) evs"
  have "current_page v # tl (remdups_adj ?xs) = remdups_adj ?xs"
    by (rule remdups_adj_Cons_alt)
  then have "distinct_adj (current_page v # tl (remdups_adj ?xs))"
    by (simp only: distinct_adj_remdups_adj)
  with scroll_events_remdups [OF False, of evs] show ?thesis
    by blast
qed

lemma example_canvas:
  "canvas example_viewer =
     \<lparr>pixmaps = two_pages, page_y = [10, 620], total_h = 1230, max_w = 520,
      widget_w = 520, widget_h = 1230, sel_origin = None, sel_current = None\<rparr>"
  by (simp add: example_viewer_def set_pixmaps_def recompute_def setFixedSize_def PAGE_GAP_def
                QWIDGETSIZE_MAX_def PageCanvas_init_def two_pages_def Let_def)

text \<open>
  What \<open>_on_scroll\<close> alone guarantees, from any state of the viewer: over a sequence of
  scroll events the notifications are the computed pages with every repetition of the
  page recorded just before dropped, and no two consecutive notifications carry the same
  page; without pages nothing is emitted.
\<close>

lemma scroll_events_dedup:
  "(pixmaps (canvas v) \<noteq> [] \<longrightarrow>
      emitted (scroll_events v evs)
        = emitted v @ tl (remdups_adj (current_page v # map (active_page (canvas v)) evs)))
   \<and> (pixmaps (canvas v) = [] \<longrightarrow> emitted (scroll_events v evs) = emitted v)
   \<and> (\<exists>new. emitted (scroll_events v evs) = emitted v @ new
          \<and> distinct_adj (current_page v # new))
   \<and> (\<forall>ev. active_page (canvas v) ev = current_page v \<longrightarrow>
          emitted (scroll_event v ev) = emitted v
          \<and> current_page (scroll_event v ev) = current_page v)
   \<and> (\<forall>ev. pixmaps (canvas v) \<noteq> [] \<and> active_page (canvas v) ev \<noteq> current_page v \<longrightarrow>
          emitted (scroll_event v ev) = emitted v @ [active_page (canvas v) ev]
          \<and> current_page (scroll_event v ev) = active_page (canvas v) ev)"
proof -
  have p1: "pixmaps (canvas v) \<noteq> [] \<longrightarrow>
      emitted (scroll_events v evs)
        = emitted v @ tl (remdups_adj (current_page v # map (active_page (canvas v)) evs))"
    by (simp add: scroll_events_remdups)
  have p2: "pixmaps (canvas v) = [] \<longrightarrow> emitted (scroll_events v evs) = emitted v"
    by (simp add: scroll_events_empty)
  have p3: "\<exists>new. emitted (scroll_events v evs) = emitted v @ new
          \<and> distinct_adj (current_page v # new)"
    by (rule scroll_events_distinct_adj)
  have p4: "\<forall>ev. active_page (canvas v) ev = current_page v \<longrightarrow>
          emitted (scroll_event v ev) = emitted v
          \<and> current_page (scroll_event v ev) = current_page v"
    using scroll_event_same by blast
  have p5: "\<forall>ev. pixmaps (canvas v) \<noteq> [] \<and> active_page (canvas v) ev \<noteq> current_page v \<longrightarrow>
          emitted (scroll_event v ev) = emitted v @ [active_page (canvas v) ev]
          \<and> current_page (scroll_event v ev) = active_page (canvas v) ev"
    using scroll_event_changed by blast
  show ?thesis
    by (intro conjI) (rule p1 p2 p3 p4 p5)+
qed


lemma short_pages_canvas:
  "canvas short_pages_viewer =
     \<lparr>pixmaps = [\<lparr>pm_width = 400, pm_height = 100\<rparr>, \<lparr>pm_width = 400, pm_height = 100\<rparr>,
                 \<lparr>pm_width = 400, pm_height = 100\<rparr>, \<lparr>pm_width = 400, pm_height = 100\<rparr>],
      page_y = [10, 120, 230, 340], total_h = 450, max_w = 420,
      widget_w = 420, widget_h = 450, sel_origin = None, sel_current = None\<rparr>"
  by (simp add: short_pages_viewer_def set_pixmaps_def recompute_def setFixedSize_def
        PAGE_GAP_def QWIDGETSIZE_MAX_def PageCanvas_init_def Let_def)

text \<open>
  C7. The notifications are not free of consecutive repetitions. \<open>scroll_to_page\<close> moves
  the scroll bar, which is a scroll event: \<open>_on_scroll\<close> runs, finds page 1 at the centre
  of the viewport where page 0 was recorded, and emits 1. \<open>scroll_to_page\<close> then records
  its target and emits it without comparing, so going from page 0 to page 1 notifies
  page 1 twice.
\<close>

theorem scroll_to_page_emits_twice:
  "scroll_to_page example_viewer 1
     = Inr (example_viewer\<lparr>sb_value := 610, current_page := 1, emitted := [1, 1]\<rparr>)"
proof -
  have p: "page_at_y (canvas example_viewer) 910 = 1"
    by (simp add: example_canvas page_at_y_def numeral_2_eq_2)
  have f: "sb_value example_viewer = 0" "sb_maximum example_viewer = 630"
    "viewport_height example_viewer = 600" "current_page example_viewer = 0"
    "emitted example_viewer = []"
    by (simp_all add: example_viewer_def)
  have ne: "pixmaps (canvas example_viewer) \<noteq> []"
    "length (pixmaps (canvas example_viewer)) = 2"
    "page_y (canvas example_viewer) = [10, 620]"
    by (simp_all add: example_canvas two_pages_def)
  show ?thesis
    by (simp add: scroll_to_page_def setValue_def on_scroll_def Let_def f ne p)
qed

text \<open>
  The page that \<open>scroll_to_page\<close> records need not be the page at the centre of the
  viewport either. With short pages, going to page 1 emits 2 (the centre page) and then
  1, and the next scroll event, one pixel further, emits 2 again although the centre
  page has not changed.
\<close>

lemma scroll_to_page_records_other_page:
  "scroll_to_page short_pages_viewer 1
     = Inr (short_pages_viewer\<lparr>sb_value := 110, current_page := 1, emitted := [2, 1]\<rparr>)
   \<and> emitted (scroll_event (short_pages_viewer\<lparr>sb_value := 110, current_page := 1,
                               emitted := [2, 1]\<rparr>) (111, 300)) = [2, 1, 2]"
proof -
  have p: "page_at_y (canvas short_pages_viewer) 260 = 2"
    "page_at_y (canvas short_pages_viewer) 261 = 2"
    by (simp_all add: short_pages_canvas page_at_y_def numeral_2_eq_2 eval_nat_numeral(3))
  have f: "sb_value short_pages_viewer = 0" "sb_maximum short_pages_viewer = 150"
    "viewport_height short_pages_viewer = 300" "current_page short_pages_viewer = 0"
    "emitted short_pages_viewer = []"
    by (simp_all add: short_pages_viewer_def)
  have ne: "pixmaps (canvas short_pages_viewer) \<noteq> []"
    "length (pixmaps (canvas short_pages_viewer)) = 4"
    "page_y (canvas short_pages_viewer) = [10, 120, 230, 340]"
    by (simp_all add: short_pages_canvas)
  show ?thesis
    by (simp add: scroll_to_page_def scroll_event_def setValue_def on_scroll_def Let_def f ne p)
qed

section \<open>The rubber band\<close>

lemma normalized_nonneg:
  "0 \<le> rect_width (normalized r) \<and> 0 \<le> rect_height (normalized r)"
  by (simp add: normalized_def rect_width_def rect_height_def Let_def)

lemma selection_rect_during_drag:
  assumes "\<not> QPoint_isNull p" and "\<not> QPoint_isNull q"
  shows "selection_rect (mouseMoveEvent (mousePressEvent c LeftButton p) q)
           = Some (normalized (QRect_points p q))"
  using assms
  by (simp add: mouseMoveEvent_def mousePressEvent_def selection_rect_def truthy_def)

lemma selection_rect_cleared: "selection_rect (clear_selection c) = None"
  by (simp add: clear_selection_def selection_rect_def truthy_def)

text \<open>
  C8. A drag that starts at canvas pixel \<open>(0, 0)\<close>: after the left button is pressed there
  and the pointer has moved to \<open>(50, 30)\<close>, both points are recorded, yet
  \<open>selection_rect\<close> returns \<open>None\<close> instead of the rectangle between them, because the
  origin \<open>(0, 0)\<close> counts as false in its test.
\<close>

theorem selection_rect_drag_from_origin:
  "sel_origin (mouseMoveEvent (mousePressEvent PageCanvas_init LeftButton \<lparr>pt_x = 0, pt_y = 0\<rparr>)
                 \<lparr>pt_x = 50, pt_y = 30\<rparr>) = Some \<lparr>pt_x = 0, pt_y = 0\<rparr>
   \<and> sel_current (mouseMoveEvent (mousePressEvent PageCanvas_init LeftButton \<lparr>pt_x = 0, pt_y = 0\<rparr>)
                 \<lparr>pt_x = 50, pt_y = 30\<rparr>) = Some \<lparr>pt_x = 50, pt_y = 30\<rparr>
   \<and> selection_rect (mouseMoveEvent (mousePressEvent PageCanvas_init LeftButton \<lparr>pt_x = 0, pt_y = 0\<rparr>)
                 \<lparr>pt_x = 50, pt_y = 30\<rparr>) = None"
  by (simp add: mouseMoveEvent_def mousePressEvent_def selection_rect_def truthy_def
                QPoint_isNull_def PageCanvas_init_def)

section \<open>Copying the selected text\<close>

lemma clamp_zoom_positive: "0 < clamp_zoom z"
  by (simp add: clamp_zoom_def ZOOM_MIN_def ZOOM_MAX_def)



lemma strip_only_spaces: "strip [0xA0, 0x85, 0x2003, 32] = []"
  by (simp add: strip_def is_space_def)

















text \<open>
  C10. If no document is loaded (or the document is false, having no pages), or there is
  no selection rectangle, or the selection rectangle is less than 4 pixels wide or high,
  \<open>try_copy_selection\<close> returns the viewer unchanged: no text is extracted and the
  clipboard, the canvas and everything else stay as they were.
\<close>

theorem try_copy_selection_guard:
  "doc v = None \<or> doc_falsy (doc v) \<or> selection_rect (canvas v) = None
     \<or> (\<exists>sel. selection_rect (canvas v) = Some sel \<and> (rect_width sel < 4 \<or> rect_height sel < 4))
   \<Longrightarrow> try_copy_selection v = Inr v"
  by (auto simp: try_copy_selection_def doc_falsy_def)

theorem try_copy_selection_guard_witness:
  "doc (example_drag\<lparr>doc := None\<rparr>) = None
   \<and> try_copy_selection (example_drag\<lparr>doc := None\<rparr>) = Inr (example_drag\<lparr>doc := None\<rparr>)
   \<and> selection_rect (canvas example_viewer) = None
   \<and> try_copy_selection example_viewer = Inr example_viewer
   \<and> selection_rect (canvas example_small_drag) = Some \<lparr>rx1 = 100, ry1 = 100, rx2 = 102, ry2 = 150\<rparr>
   \<and> rect_width \<lparr>rx1 = 100, ry1 = 100, rx2 = 102, ry2 = 150\<rparr> < 4
   \<and> try_copy_selection example_small_drag = Inr example_small_drag"
proof -
  let ?sel = "\<lparr>rx1 = 100, ry1 = 100, rx2 = 102, ry2 = 150\<rparr>"
  have h1: "doc (example_drag\<lparr>doc := None\<rparr>) = None"
    by simp
  have h2: "selection_rect (canvas example_viewer) = None"
    by (simp add: example_canvas selection_rect_def truthy_def)
  have h3: "selection_rect (canvas example_small_drag) = Some ?sel"
    by (simp add: example_small_drag_def example_canvas mouseMoveEvent_def mousePressEvent_def
          selection_rect_def truthy_def QPoint_isNull_def normalized_def QRect_points_def)
  have h4: "rect_width ?sel < 4"
    by (simp add: rect_width_def)
  have a: "try_copy_selection (example_drag\<lparr>doc := None\<rparr>) = Inr (example_drag\<lparr>doc := None\<rparr>)"
    using h1 by (intro try_copy_selection_guard) blast
  have b: "try_copy_selection example_viewer = Inr example_viewer"
    using h2 by (intro try_copy_selection_guard) blast
  have c: "try_copy_selection example_small_drag = Inr example_small_drag"
    using h3 h4 by (intro try_copy_selection_guard) blast
  from h1 h2 h3 h4 a b c show ?thesis
    by blast
qed

end
